theory Spec2Isabelle
  imports Complex_Main "HOL-Library.Sublist"
begin

section \<open>Conventions of the embedding\<close>

text \<open>
  The TypeScript sources are embedded function by function. A JavaScript string is a
  \<^typ>\<open>string\<close> (one \<^typ>\<open>char\<close> per code unit, so the model covers the code
  units below 256); a JavaScript number that the code uses as a size, an index or a count
  is an \<^typ>\<open>int\<close> or a \<^typ>\<open>nat\<close>, a score or a vector component is a
  \<^typ>\<open>real\<close> (rounding, overflow and NaN of IEEE doubles are outside the model).
  An optional field is an \<^typ>\<open>'a option\<close>; a \<^verbatim>\<open>throw\<close> is the \<open>Inl\<close> of a
  sum type; \<^verbatim>\<open>x || d\<close> on a number is the default \<open>d\<close> when \<open>x\<close> is absent
  or zero.
\<close>

definition orDefault :: "int option \<Rightarrow> int \<Rightarrow> int" where
  "orDefault x d = (case x of None \<Rightarrow> d | Some v \<Rightarrow> if v = 0 then d else v)"

section \<open>utils/fileProcessor.ts: the chunker\<close>

subsection \<open>Strings\<close>

text \<open>The white space that \<^verbatim>\<open>String.prototype.trim\<close> removes, among the code units
  below 256: tab, line feed, vertical tab, form feed, carriage return, space, no-break space.\<close>

definition isWhitespace :: "char \<Rightarrow> bool" where
  "isWhitespace c =
     (c = CHR 0x09 \<or> c = CHR 0x0A \<or> c = CHR 0x0B \<or> c = CHR 0x0C \<or> c = CHR 0x0D
      \<or> c = CHR 0x20 \<or> c = CHR 0xA0)"

definition trimStart :: "string \<Rightarrow> string" where
  "trimStart s = dropWhile isWhitespace s"

definition trim :: "string \<Rightarrow> string" where
  "trim s = rev (dropWhile isWhitespace (rev (dropWhile isWhitespace s)))"

text \<open>The character class \<^verbatim>\<open>[.!?]\<close>.\<close>

definition isTerminator :: "char \<Rightarrow> bool" where
  "isTerminator c = (c = CHR ''.'' \<or> c = CHR ''!'' \<or> c = CHR ''?'')"

text \<open>\<^verbatim>\<open>text.split(/[.!?]+/)\<close>: the pieces between maximal runs of terminators;
  a run at the start or the end of the text leaves an empty piece there, and the empty
  text is one empty piece.\<close>

function splitTerminators :: "string \<Rightarrow> string list" where
  "splitTerminators s =
     (if dropWhile (\<lambda>c. \<not> isTerminator c) s = []
      then [takeWhile (\<lambda>c. \<not> isTerminator c) s]
      else takeWhile (\<lambda>c. \<not> isTerminator c) s
             # splitTerminators (dropWhile isTerminator (dropWhile (\<lambda>c. \<not> isTerminator c) s)))"
  by pat_completeness auto
termination
proof (relation "measure length", goal_cases)
  case 1
  show ?case by simp
next
  case (2 s)
  let ?r = "dropWhile (\<lambda>c. \<not> isTerminator c) s"
  from 2 obtain c cs where r: "?r = c # cs" by (cases ?r) auto
  then have "isTerminator c" using hd_dropWhile [of "\<lambda>c. \<not> isTerminator c" s] by auto
  then have "length (dropWhile isTerminator ?r) \<le> length cs"
    using r by (simp add: length_dropWhile_le)
  moreover have "length ?r \<le> length s" by (rule length_dropWhile_le)
  ultimately show ?case using r by simp
qed

declare splitTerminators.simps [simp del]

definition splitIntoSentences :: "string \<Rightarrow> string list" where
  "splitIntoSentences text =
     filter (\<lambda>s. length s > 0) (map trim (splitTerminators text))"

text \<open>\<^verbatim>\<open>getOverlapText\<close>: \<^verbatim>\<open>text.slice(-overlapSize)\<close> starts \<open>overlapSize\<close>
  code units before the end when \<open>overlapSize\<close> is positive, at the start when it is zero
  (\<open>-0\<close> is \<open>0\<close>), and \<open>-overlapSize\<close> code units after the start when it is negative.\<close>

definition getOverlapText :: "string \<Rightarrow> int \<Rightarrow> string" where
  "getOverlapText text overlapSize =
     (if int (length text) \<le> overlapSize then text
      else if 0 < overlapSize then drop (length text - nat overlapSize) text
      else drop (nat (- overlapSize)) text)"

subsection \<open>Chunks\<close>

record FileInfo =
  fi_filename :: string
  fi_path :: string
  fi_size :: nat
  fi_type :: string

record ChunkMetadata =
  source :: string
  filename :: string
  chunkIndex :: nat
  totalChunks :: nat
  timestamp :: string
  fileType :: string
  size_bytes :: nat

record DocumentChunk =
  chunk_id :: string
  content :: string
  metadata :: ChunkMetadata

record ProcessingOptions =
  opt_chunkSize :: "int option"
  opt_chunkOverlap :: "int option"

text \<open>The configuration values read by the chunker and the embedding client
  (\<^verbatim>\<open>CONFIG.CHUNK_SIZE\<close>, \<^verbatim>\<open>CONFIG.CHUNK_OVERLAP\<close>, \<^verbatim>\<open>CONFIG.EMBEDDING_DIMENSION\<close>),
  parsed from the process environment at start-up.\<close>

record Config =
  CHUNK_SIZE :: int
  CHUNK_OVERLAP :: int
  EMBEDDING_DIMENSION :: nat

text \<open>\<^verbatim>\<open>uuidv4()\<close> and \<^verbatim>\<open>new Date().toISOString()\<close> read the outside world: the
  \<open>k\<close>-th chunk object created by one call of \<^verbatim>\<open>createChunks\<close> gets \<open>uuid k\<close> and
  \<open>clock k\<close>.\<close>

record Env =
  uuid :: "nat \<Rightarrow> string"
  clock :: "nat \<Rightarrow> string"

definition createChunkObject ::
  "Env \<Rightarrow> nat \<Rightarrow> string \<Rightarrow> FileInfo \<Rightarrow> nat \<Rightarrow> nat \<Rightarrow> DocumentChunk" where
  "createChunkObject env k contentv fileInfo chunkIndexv totalChunksv =
     \<lparr> chunk_id = uuid env k,
       content = contentv,
       metadata = \<lparr> source = fi_path fileInfo,
                    filename = fi_filename fileInfo,
                    chunkIndex = chunkIndexv,
                    totalChunks = totalChunksv,
                    timestamp = clock env k,
                    fileType = fi_type fileInfo,
                    size_bytes = fi_size fileInfo \<rparr> \<rparr>"

text \<open>The \<^verbatim>\<open>for\<close> loop of \<^verbatim>\<open>createChunks\<close> over the sentences still to read; its
  state is \<^verbatim>\<open>chunks\<close>, \<^verbatim>\<open>currentChunk\<close> and \<^verbatim>\<open>chunkIndex\<close>.\<close>

fun chunkLoop ::
  "Env \<Rightarrow> FileInfo \<Rightarrow> int \<Rightarrow> int \<Rightarrow> string list \<Rightarrow> DocumentChunk list \<Rightarrow> string \<Rightarrow> nat
     \<Rightarrow> DocumentChunk list \<times> string \<times> nat" where
  "chunkLoop env fileInfo chunkSize chunkOverlap [] chunks currentChunk idx =
     (chunks, currentChunk, idx)"
| "chunkLoop env fileInfo chunkSize chunkOverlap (sentence # rest) chunks currentChunk idx =
     (if sentence \<noteq> [] \<and> int (length currentChunk + length sentence) > chunkSize
         \<and> length currentChunk > 0
      then chunkLoop env fileInfo chunkSize chunkOverlap rest
             (chunks @ [createChunkObject env (length chunks) (trim currentChunk) fileInfo idx
                          (length chunks + 1)])
             (getOverlapText currentChunk chunkOverlap @ sentence)
             (idx + 1)
      else chunkLoop env fileInfo chunkSize chunkOverlap rest chunks
             (currentChunk @ (if currentChunk \<noteq> [] then '' '' else '''') @ sentence)
             idx)"

definition createChunks ::
  "Env \<Rightarrow> Config \<Rightarrow> string \<Rightarrow> FileInfo \<Rightarrow> ProcessingOptions \<Rightarrow> DocumentChunk list" where
  "createChunks env cfg contentv fileInfo options =
     (let chunkSize = orDefault (opt_chunkSize options) (CHUNK_SIZE cfg);
          chunkOverlap = orDefault (opt_chunkOverlap options) (CHUNK_OVERLAP cfg);
          sentences = splitIntoSentences contentv
      in case chunkLoop env fileInfo chunkSize chunkOverlap sentences [] [] 0 of
           (chunks, currentChunk, idx) \<Rightarrow>
             if length (trim currentChunk) > 0
             then chunks @ [createChunkObject env (length chunks) (trim currentChunk) fileInfo idx
                              (length chunks + 1)]
             else chunks)"


section \<open>services/embeddingService.ts: the embedding client\<close>

subsection \<open>The provider\<close>

text \<open>What \<^verbatim>\<open>axios.post\<close> can give back: a response with its status and data (the data
  an array, whose elements are arrays of numbers or something else, or not an array), a
  rejection that \<^verbatim>\<open>axios.isAxiosError\<close> recognises (with the status and status text of
  its response, when it has one), or any other exception.\<close>

datatype json_value = JArray "real list" | JOther

datatype response_data = DataArray "json_value list" | DataOther

datatype http_outcome =
    Response nat response_data
  | AxiosError "nat option" "string option"
  | OtherFailure

text \<open>The provider is outside the program: \<open>p n inputs\<close> is its answer to the request
  number \<open>n\<close> (counted from 0) when that request carries \<open>inputs\<close>. Every function that
  may call it takes the number of requests made so far and returns the new number.\<close>

type_synonym provider = "nat \<Rightarrow> string list \<Rightarrow> http_outcome"

datatype embed_cause = RequestFailedWithStatus nat | InvalidResponseFormat | UnknownFailure

datatype embed_error =
    InvalidApiKey
  | RateLimitExceeded
  | ModelLoading
  | ApiError "nat option" "string option"
  | FailedToGenerateEmbeddings embed_cause

subsection \<open>generateEmbeddings\<close>

fun isValidEmbedding :: "nat \<Rightarrow> json_value \<Rightarrow> bool" where
  "isValidEmbedding d (JArray v) = (length v = d)"
| "isValidEmbedding d JOther = False"

fun numbersOf :: "json_value \<Rightarrow> real list" where
  "numbersOf (JArray v) = v"
| "numbersOf JOther = []"

definition generateEmbeddings ::
  "nat \<Rightarrow> provider \<Rightarrow> nat \<Rightarrow> string list \<Rightarrow> (embed_error + real list list) \<times> nat" where
  "generateEmbeddings dimension p n texts =
     (if length texts = 0 then (Inr [], n)
      else
        (case p n texts of
           Response status dat \<Rightarrow>
             if status \<noteq> 200
             then (Inl (FailedToGenerateEmbeddings (RequestFailedWithStatus status)), n + 1)
             else (case dat of
                     DataOther \<Rightarrow> (Inl (FailedToGenerateEmbeddings InvalidResponseFormat), n + 1)
                   | DataArray embeddings \<Rightarrow>
                       (Inr (map numbersOf (filter (isValidEmbedding dimension) embeddings)), n + 1))
         | AxiosError status statusText \<Rightarrow>
             if status = Some 401 then (Inl InvalidApiKey, n + 1)
             else if status = Some 429 then (Inl RateLimitExceeded, n + 1)
             else if status = Some 503 then (Inl ModelLoading, n + 1)
             else (Inl (ApiError status statusText), n + 1)
         | OtherFailure \<Rightarrow> (Inl (FailedToGenerateEmbeddings UnknownFailure), n + 1)))"

subsection \<open>generateSingleEmbedding, generateQueryEmbedding, testConnection\<close>

text \<open>\<^verbatim>\<open>xs[i]\<close> on an array: \<open>undefined\<close> past the end.\<close>

definition jsIndex :: "'a list \<Rightarrow> nat \<Rightarrow> 'a option" where
  "jsIndex xs i = (if i < length xs then Some (xs ! i) else None)"

text \<open>\<^verbatim>\<open>embeddings[0] || []\<close>: an array, even an empty one, is truthy; \<open>undefined\<close> is not.\<close>

definition generateSingleEmbedding ::
  "nat \<Rightarrow> provider \<Rightarrow> nat \<Rightarrow> string \<Rightarrow> (embed_error + real list) \<times> nat" where
  "generateSingleEmbedding dimension p n text =
     (case generateEmbeddings dimension p n [text] of
        (Inl error, n') \<Rightarrow> (Inl error, n')
      | (Inr embeddings, n') \<Rightarrow>
          (Inr (case jsIndex embeddings 0 of Some v \<Rightarrow> v | None \<Rightarrow> []), n'))"

definition generateQueryEmbedding ::
  "nat \<Rightarrow> provider \<Rightarrow> nat \<Rightarrow> string \<Rightarrow> (embed_error + real list) \<times> nat" where
  "generateQueryEmbedding dimension p n query = generateSingleEmbedding dimension p n query"

definition testConnection :: "nat \<Rightarrow> provider \<Rightarrow> nat \<Rightarrow> (embed_error + bool) \<times> nat" where
  "testConnection dimension p n =
     (case generateSingleEmbedding dimension p n ''test'' of
        (Inl error, n') \<Rightarrow> (Inr False, n')
      | (Inr testEmbedding, n') \<Rightarrow> (Inr (length testEmbedding = dimension), n'))"

subsection \<open>generateEmbeddingsBatch\<close>

text \<open>\<^verbatim>\<open>xs.slice(start, end)\<close>: a negative bound counts from the end, and both bounds are
  clamped to the array.\<close>

definition slice :: "'a list \<Rightarrow> int \<Rightarrow> int \<Rightarrow> 'a list" where
  "slice xs start fin =
     (let len = int (length xs);
          k = (if start < 0 then max (len + start) 0 else min start len);
          final = (if fin < 0 then max (len + fin) 0 else min fin len)
      in take (nat (final - k)) (drop (nat k) xs))"

text \<open>The inner \<^verbatim>\<open>while (retries < maxRetries && !success)\<close> loop for one batch. It
  leaves either by success (the batch's embeddings pushed onto \<^verbatim>\<open>allEmbeddings\<close>), by
  the \<^verbatim>\<open>throw\<close> after the last failed attempt, or without an attempt when
  \<open>maxRetries\<close> is not positive. The waiting between attempts does not change the result
  and is left out.\<close>

function retryLoop ::
  "nat \<Rightarrow> provider \<Rightarrow> int \<Rightarrow> string list \<Rightarrow> real list list \<Rightarrow> int \<Rightarrow> nat
     \<Rightarrow> (embed_error + real list list) \<times> nat" where
  "retryLoop dimension p maxRetries batch allEmbeddings retries n =
     (if retries < maxRetries
      then (case generateEmbeddings dimension p n batch of
              (Inr batchEmbeddings, n') \<Rightarrow> (Inr (allEmbeddings @ batchEmbeddings), n')
            | (Inl error, n') \<Rightarrow>
                if retries + 1 \<ge> maxRetries then (Inl error, n')
                else retryLoop dimension p maxRetries batch allEmbeddings (retries + 1) n')
      else (Inr allEmbeddings, n))"
  by pat_completeness auto
termination
  by (relation "measure (\<lambda>(dimension, p, maxRetries, batch, allEmbeddings, retries, n).
                   nat (maxRetries - retries))") auto

declare retryLoop.simps [simp del]

text \<open>The outer \<^verbatim>\<open>for (let i = 0; i < texts.length; i += batchSize)\<close> loop. With a
  \<open>batchSize\<close> that is not positive it need not end, so it is a partial function: \<open>None\<close>
  is the run that never returns.\<close>

partial_function (option) batchLoop ::
  "nat \<Rightarrow> provider \<Rightarrow> string list \<Rightarrow> int \<Rightarrow> int \<Rightarrow> int \<Rightarrow> real list list \<Rightarrow> nat
     \<Rightarrow> ((embed_error + real list list) \<times> nat) option" where
  "batchLoop dimension p texts batchSize maxRetries i allEmbeddings n =
     (if i < int (length texts)
      then (case retryLoop dimension p maxRetries (slice texts i (i + batchSize)) allEmbeddings 0 n of
              (Inl error, n') \<Rightarrow> Some (Inl error, n')
            | (Inr allEmbeddings', n') \<Rightarrow>
                batchLoop dimension p texts batchSize maxRetries (i + batchSize) allEmbeddings' n')
      else Some (Inr allEmbeddings, n))"

definition generateEmbeddingsBatch ::
  "nat \<Rightarrow> provider \<Rightarrow> nat \<Rightarrow> string list \<Rightarrow> int \<Rightarrow> int
     \<Rightarrow> ((embed_error + real list list) \<times> nat) option" where
  "generateEmbeddingsBatch dimension p n texts batchSize maxRetries =
     batchLoop dimension p texts batchSize maxRetries 0 [] n"

subsection \<open>calculateCosineSimilarity\<close>

datatype similarity_error = DimensionMismatch

text \<open>The \<^verbatim>\<open>for\<close> loop over the indices, accumulating \<^verbatim>\<open>dotProduct\<close>,
  \<^verbatim>\<open>norm1\<close> and \<^verbatim>\<open>norm2\<close>.\<close>

definition cosineSums :: "real list \<Rightarrow> real list \<Rightarrow> real \<times> real \<times> real" where
  "cosineSums embedding1 embedding2 =
     fold (\<lambda>i (dotProduct, norm1, norm2).
             (dotProduct + embedding1 ! i * embedding2 ! i,
              norm1 + embedding1 ! i * embedding1 ! i,
              norm2 + embedding2 ! i * embedding2 ! i))
          [0..<length embedding1] (0, 0, 0)"

definition calculateCosineSimilarity ::
  "real list \<Rightarrow> real list \<Rightarrow> similarity_error + real" where
  "calculateCosineSimilarity embedding1 embedding2 =
     (if length embedding1 \<noteq> length embedding2 then Inl DimensionMismatch
      else (case cosineSums embedding1 embedding2 of
              (dotProduct, norm1, norm2) \<Rightarrow>
                if sqrt norm1 = 0 \<or> sqrt norm2 = 0 then Inr 0
                else Inr (dotProduct / (sqrt norm1 * sqrt norm2))))"

subsection \<open>Auxiliary notions for the chunker's properties\<close>

text \<open>A string is tight when it is not empty and neither starts nor ends with white space.\<close>

definition tight :: "string \<Rightarrow> bool" where
  "tight s = (s \<noteq> [] \<and> \<not> isWhitespace (hd s) \<and> \<not> isWhitespace (last s))"

text \<open>A list of chunks is numbered when the chunk at position \<open>i\<close> carries the index
  \<open>i\<close> and the total \<open>i + 1\<close>.\<close>

definition numbered :: "DocumentChunk list \<Rightarrow> bool" where
  "numbered chunks =
     (\<forall>i<length chunks. chunkIndex (metadata (chunks ! i)) = i
                          \<and> totalChunks (metadata (chunks ! i)) = i + 1)"

text \<open>\<^verbatim>\<open>sentences.join(' ')\<close>: the sentences separated by single spaces.\<close>

fun joinSpaces :: "string list \<Rightarrow> string" where
  "joinSpaces [] = []"
| "joinSpaces [s] = s"
| "joinSpaces (s # t # ss) = s @ '' '' @ joinSpaces (t # ss)"

text \<open>\<open>overlaps ov a b\<close>: \<open>b\<close> starts with the overlap tail of \<open>a\<close> (its last \<open>ov\<close>
  characters, or all of it when it is no longer than that), leading white space removed.\<close>

definition overlaps :: "int \<Rightarrow> string \<Rightarrow> string \<Rightarrow> bool" where
  "overlaps ov a b = prefix (trimStart (getOverlapText a ov)) b"

definition chained :: "int \<Rightarrow> DocumentChunk list \<Rightarrow> bool" where
  "chained ov chunks =
     (\<forall>i. i + 1 < length chunks \<longrightarrow>
        overlaps ov (content (chunks ! i)) (content (chunks ! (i + 1))))"

text \<open>Sample inputs for the closed instances below; \<open>exDefaults\<close> is the empty options
  object that \<^verbatim>\<open>processFile\<close> gets from \<^verbatim>\<open>addFile\<close>.\<close>

definition exEnv :: Env where
  "exEnv = \<lparr> uuid = (\<lambda>k. ''id-'' @ replicate k CHR ''x''), clock = (\<lambda>k. ''2024-01-01T00:00:00.000Z'') \<rparr>"

definition exFile :: FileInfo where
  "exFile = \<lparr> fi_filename = ''a.txt'', fi_path = ''/data/a.txt'', fi_size = 13, fi_type = ''.txt'' \<rparr>"

definition exCfg :: Config where
  "exCfg = \<lparr> CHUNK_SIZE = 1000, CHUNK_OVERLAP = 200, EMBEDDING_DIMENSION = 2 \<rparr>"

definition exOptions :: ProcessingOptions where
  "exOptions = \<lparr> opt_chunkSize = Some 8, opt_chunkOverlap = Some 4 \<rparr>"

definition exDefaults :: ProcessingOptions where
  "exDefaults = \<lparr> opt_chunkSize = None, opt_chunkOverlap = None \<rparr>"

section \<open>Properties of the chunker\<close>

subsection \<open>Trimming\<close>
lemma rev_dropWhile_rev_prefix: "rev (dropWhile P (rev y)) @ rev (takeWhile P (rev y)) = y"
  by (metis rev_append rev_rev_ident takeWhile_dropWhile_id)

lemma length_trim_le: "length (trim s) \<le> length s"
proof -
  have "length (trim s) \<le> length (dropWhile isWhitespace s)"
    unfolding trim_def using length_dropWhile_le [of isWhitespace "rev (dropWhile isWhitespace s)"] by simp
  also have "\<dots> \<le> length s" by (rule length_dropWhile_le)
  finally show ?thesis .
qed

lemma tight_trim: assumes "trim x \<noteq> []" shows "tight (trim x)"
proof -
  let ?y = "dropWhile isWhitespace x"
  let ?z = "dropWhile isWhitespace (rev ?y)"
  have t: "trim x = rev ?z" by (simp add: trim_def)
  from assms t have z: "?z \<noteq> []" by simp
  then have "\<not> isWhitespace (hd ?z)" by (rule hd_dropWhile)
  then have l: "\<not> isWhitespace (last (trim x))" using z t by (simp add: last_rev)
  have y: "trim x @ rev (takeWhile isWhitespace (rev ?y)) = ?y"
    unfolding t by (rule rev_dropWhile_rev_prefix)
  then have "?y \<noteq> []" using assms by (metis append_is_Nil_conv)
  then have "\<not> isWhitespace (hd ?y)" by (rule hd_dropWhile)
  moreover have "hd ?y = hd (trim x)" using y assms by (metis hd_append2)
  ultimately show ?thesis using assms l by (simp add: tight_def)
qed

lemma trim_tight: assumes "tight s" shows "trim s = s"
proof -
  from assms have 1: "dropWhile isWhitespace s = s"
    by (simp add: tight_def dropWhile_eq_self_iff)
  from assms have 2: "dropWhile isWhitespace (rev s) = rev s"
    by (simp add: tight_def dropWhile_eq_self_iff hd_rev)
  show ?thesis by (simp add: trim_def 1 2)
qed

lemma sentences_tight: "s \<in> set (splitIntoSentences text) \<Longrightarrow> tight s"
  by (auto simp: splitIntoSentences_def intro: tight_trim)

lemma trim_ends_tight:
  assumes "cur \<noteq> []" "\<not> isWhitespace (last cur)"
  shows "trim cur = trimStart cur"
proof -
  let ?y = "dropWhile isWhitespace cur"
  have "\<exists>c\<in>set cur. \<not> isWhitespace c" using assms last_in_set by blast
  then have y: "?y \<noteq> []" by (simp add: dropWhile_eq_Nil_conv) 
  have "last ?y = last cur" using y by (metis last_appendR takeWhile_dropWhile_id)
  then have "dropWhile isWhitespace (rev ?y) = rev ?y"
    using y assms by (simp add: dropWhile_eq_self_iff hd_rev)
  then show ?thesis by (simp add: trim_def trimStart_def)
qed


subsection \<open>Numbering of the chunks\<close>

lemma numbered_snoc:
  "numbered chunks \<Longrightarrow>
   numbered (chunks @ [createChunkObject env k c fileInfo (length chunks) (length chunks + 1)])"
  by (auto simp: numbered_def nth_append createChunkObject_def)

lemma chunkLoop_numbered:
  assumes "numbered chunks" "idx = length chunks"
    and "chunkLoop env fileInfo cs ov ss chunks cur idx = (chunks', cur', idx')"
  shows "numbered chunks' \<and> idx' = length chunks'"
  using assms
proof (induction ss arbitrary: chunks cur idx)
  case Nil
  then show ?case by auto
next
  case (Cons s ss)
  show ?case
  proof (cases "s \<noteq> [] \<and> int (length cur + length s) > cs \<and> length cur > 0")
    case True
    let ?c = "chunks @ [createChunkObject env (length chunks) (trim cur) fileInfo idx (length chunks + 1)]"
    have n: "numbered ?c" using Cons.prems(1,2) numbered_snoc by simp
    have l: "idx + 1 = length ?c" using Cons.prems(2) by simp
    have "chunkLoop env fileInfo cs ov ss ?c (getOverlapText cur ov @ s) (idx + 1) = (chunks', cur', idx')"
      using Cons.prems(3) True by simp
    from Cons.IH [OF n l this] show ?thesis .
  next
    case False
    then have "chunkLoop env fileInfo cs ov ss chunks (cur @ (if cur \<noteq> [] then '' '' else []) @ s) idx
                 = (chunks', cur', idx')"
      using Cons.prems(3) by auto
    from Cons.IH [OF Cons.prems(1,2) this] show ?thesis .
  qed
qed

lemma createChunks_numbered: "numbered (createChunks env cfg doc fileInfo options)"
proof -
  obtain chunks cur idx where
    l: "chunkLoop env fileInfo (orDefault (opt_chunkSize options) (CHUNK_SIZE cfg))
          (orDefault (opt_chunkOverlap options) (CHUNK_OVERLAP cfg))
          (splitIntoSentences doc) [] [] 0 = (chunks, cur, idx)"
    by (metis prod_cases3)
  have "numbered []" by (simp add: numbered_def)
  from chunkLoop_numbered [OF this _ l] have n: "numbered chunks" and i: "idx = length chunks"
    by simp_all
  show ?thesis
    using n i l numbered_snoc [OF n] by (simp add: createChunks_def Let_def)
qed

text \<open>
  C8. Every chunk that \<^verbatim>\<open>createChunks\<close> returns carries, as \<open>totalChunks\<close>, one more than
  the number of chunks emitted before it, which is its own \<open>chunkIndex\<close> plus one; the
  value is the running count at emission time and is not replaced by the final total
  afterwards. Hence \<open>chunkIndex < totalChunks\<close> for every chunk.
\<close>

theorem createChunks_totalChunks_running_count:
  "\<forall>i < length (createChunks env cfg doc fileInfo options).
     chunkIndex (metadata (createChunks env cfg doc fileInfo options ! i)) = i
     \<and> totalChunks (metadata (createChunks env cfg doc fileInfo options ! i)) = i + 1
     \<and> chunkIndex (metadata (createChunks env cfg doc fileInfo options ! i))
         < totalChunks (metadata (createChunks env cfg doc fileInfo options ! i))"
  using createChunks_numbered [of env cfg doc fileInfo options]
  by (simp add: numbered_def)

lemmas chunker_eval =
  createChunks_def splitIntoSentences_def splitTerminators.simps isTerminator_def trim_def
  isWhitespace_def orDefault_def getOverlapText_def createChunkObject_def
  exEnv_def exFile_def exCfg_def exOptions_def

lemma exChunks_contents:
  "map content (createChunks exEnv exCfg ''aaa. bbb. ccc'' exFile exOptions)
     = [''aaa bbb'', ''bbbccc'']"
  by (simp add: chunker_eval)

theorem createChunks_totalChunks_running_count_witness:
  "length (createChunks exEnv exCfg ''aaa. bbb. ccc'' exFile exOptions) = 2
   \<and> chunkIndex (metadata (createChunks exEnv exCfg ''aaa. bbb. ccc'' exFile exOptions ! 0)) = 0
   \<and> totalChunks (metadata (createChunks exEnv exCfg ''aaa. bbb. ccc'' exFile exOptions ! 0)) = 1
   \<and> chunkIndex (metadata (createChunks exEnv exCfg ''aaa. bbb. ccc'' exFile exOptions ! 1)) = 1
   \<and> totalChunks (metadata (createChunks exEnv exCfg ''aaa. bbb. ccc'' exFile exOptions ! 1)) = 2"
proof -
  let ?cs = "createChunks exEnv exCfg ''aaa. bbb. ccc'' exFile exOptions"
  have len: "length ?cs = 2"
    using arg_cong [OF exChunks_contents, of length] by simp
  have "0 < length ?cs" and "1 < length ?cs" using len by simp_all
  with createChunks_totalChunks_running_count [of exEnv exCfg "''aaa. bbb. ccc''" exFile exOptions]
  show ?thesis using len by auto
qed

subsection \<open>A text no longer than the chunk size\<close>

lemma splitTerminators_length:
  "sum_list (map (\<lambda>p. length p + 1) (splitTerminators s)) \<le> length s + 1"
proof (induction s rule: splitTerminators.induct)
  case (1 s)
  let ?t = "takeWhile (\<lambda>c. \<not> isTerminator c) s"
  let ?r = "dropWhile (\<lambda>c. \<not> isTerminator c) s"
  have ts: "length ?t + length ?r = length s"
    by (metis length_append takeWhile_dropWhile_id)
  show ?case
  proof (cases "?r = []")
    case True
    then show ?thesis using ts by (subst splitTerminators.simps) simp
  next
    case False
    then obtain c cs where r: "?r = c # cs" by (cases ?r) auto
    then have "isTerminator c" using hd_dropWhile [of "\<lambda>c. \<not> isTerminator c" s] by auto
    then have "length (dropWhile isTerminator ?r) \<le> length cs"
      using r by (simp add: length_dropWhile_le)
    then have "length (dropWhile isTerminator ?r) + 1 \<le> length ?r" using r by simp
    with 1 [OF False] ts show ?thesis
      by (subst splitTerminators.simps) (simp add: False)
  qed
qed

lemma sum_filter_map_le:
  assumes "\<And>x. f (g x) \<le> (h x :: nat)"
  shows "sum_list (map f (filter P (map g xs))) \<le> sum_list (map h xs)"
proof (induction xs)
  case Nil
  show ?case by simp
next
  case (Cons x xs)
  then show ?case using assms [of x] by (simp add: trans_le_add2)
qed

lemma splitIntoSentences_length:
  "sum_list (map (\<lambda>p. length p + 1) (splitIntoSentences s)) \<le> length s + 1"
proof -
  have "sum_list (map (\<lambda>p. length p + 1) (splitIntoSentences s))
          \<le> sum_list (map (\<lambda>p. length p + 1) (splitTerminators s))"
    unfolding splitIntoSentences_def
    by (rule sum_filter_map_le) (simp add: length_trim_le)
  then show ?thesis using splitTerminators_length [of s] by linarith
qed

lemma joinSpaces_Cons: "joinSpaces (s # ss) = s @ concat (map (\<lambda>p. '' '' @ p) ss)"
  by (induction ss arbitrary: s) auto

lemma chunkLoop_no_split:
  assumes "cur \<noteq> []"
    and "int (length cur + sum_list (map (\<lambda>p. length p + 1) ss)) \<le> cs"
  shows "chunkLoop env fileInfo cs ov ss chunks cur idx
           = (chunks, cur @ concat (map (\<lambda>p. '' '' @ p) ss), idx)"
  using assms
proof (induction ss arbitrary: cur)
  case Nil
  show ?case by simp
next
  case (Cons s ss)
  have "\<not> int (length cur + length s) > cs" using Cons.prems(2) by simp
  moreover have "chunkLoop env fileInfo cs ov ss chunks (cur @ '' '' @ s) idx
                   = (chunks, (cur @ '' '' @ s) @ concat (map (\<lambda>p. '' '' @ p) ss), idx)"
    using Cons.prems(2) by (intro Cons.IH) simp_all
  ultimately show ?case using Cons.prems(1) by simp
qed

lemma tight_joinSpaces:
  "ss \<noteq> [] \<Longrightarrow> \<forall>s\<in>set ss. tight s \<Longrightarrow> tight (joinSpaces ss)"
proof (induction ss rule: joinSpaces.induct)
  case 1
  then show ?case by simp
next
  case (2 s)
  then show ?case by simp
next
  case (3 s t ss)
  then have "tight (joinSpaces (t # ss))" and "tight s" by simp_all
  then show ?case by (simp add: tight_def)
qed

lemma splitTerminators_plain:
  "\<forall>c\<in>set s. \<not> isTerminator c \<Longrightarrow> splitTerminators s = [s]"
  by (subst splitTerminators.simps) simp

lemma createChunks_single:
  assumes "int (length doc) \<le> orDefault (opt_chunkSize options) (CHUNK_SIZE cfg)"
    and "splitIntoSentences doc \<noteq> []"
  shows "map content (createChunks env cfg doc fileInfo options)
           = [joinSpaces (splitIntoSentences doc)]"
proof -
  let ?cs = "orDefault (opt_chunkSize options) (CHUNK_SIZE cfg)"
  let ?ov = "orDefault (opt_chunkOverlap options) (CHUNK_OVERLAP cfg)"
  from assms(2) obtain s ss where ss: "splitIntoSentences doc = s # ss"
    by (cases "splitIntoSentences doc") auto
  have t: "\<forall>x\<in>set (s # ss). tight x" using sentences_tight [of _ doc] ss by metis
  then have s: "s \<noteq> []" by (simp add: tight_def)
  have "length s + sum_list (map (\<lambda>p. length p + 1) ss) \<le> length doc"
    using splitIntoSentences_length [of doc] ss by simp
  then have b: "int (length s + sum_list (map (\<lambda>p. length p + 1) ss)) \<le> ?cs"
    using assms(1) by linarith
  have "chunkLoop env fileInfo ?cs ?ov (s # ss) [] [] 0
          = chunkLoop env fileInfo ?cs ?ov ss [] s 0" by simp
  also have "\<dots> = ([], joinSpaces (s # ss), 0)"
    using chunkLoop_no_split [OF s b] by (simp add: joinSpaces_Cons)
  finally have l: "chunkLoop env fileInfo ?cs ?ov (splitIntoSentences doc) [] [] 0
                     = ([], joinSpaces (splitIntoSentences doc), 0)" using ss by simp
  have "tight (joinSpaces (splitIntoSentences doc))"
    using tight_joinSpaces [of "s # ss"] t ss by simp
  then have "trim (joinSpaces (splitIntoSentences doc)) = joinSpaces (splitIntoSentences doc)"
    and "joinSpaces (splitIntoSentences doc) \<noteq> []"
    by (simp_all add: trim_tight tight_def)
  then show ?thesis by (simp add: createChunks_def l createChunkObject_def)
qed

text \<open>
  C5 (as the code has it). For every input text whose length is at most the chunk size in
  force and which has at least one sentence unit that is not only white space,
  \<^verbatim>\<open>createChunks\<close> returns exactly one chunk; its content is the sentence units (the
  pieces between runs of \<open>.\<close>, \<open>!\<close> and \<open>?\<close>, each trimmed, the empty ones dropped)
  joined by single spaces. It is the trimmed input text when the text contains no
  terminator.
\<close>

theorem createChunks_short_text_single_chunk:
  assumes "int (length doc) \<le> orDefault (opt_chunkSize options) (CHUNK_SIZE cfg)"
    and "splitIntoSentences doc \<noteq> []"
  shows "map content (createChunks env cfg doc fileInfo options)
           = [joinSpaces (splitIntoSentences doc)]
         \<and> ((\<forall>c\<in>set doc. \<not> isTerminator c) \<longrightarrow>
              map content (createChunks env cfg doc fileInfo options) = [trim doc])"
proof -
  have 1: "map content (createChunks env cfg doc fileInfo options)
           = [joinSpaces (splitIntoSentences doc)]"
    using assms by (rule createChunks_single)
  have "joinSpaces (splitIntoSentences doc) = trim doc" if "\<forall>c\<in>set doc. \<not> isTerminator c"
  proof -
    have "splitIntoSentences doc = filter (\<lambda>s. length s > 0) [trim doc]"
      using that by (simp add: splitIntoSentences_def splitTerminators_plain)
    then show ?thesis using assms(2) by (auto split: if_splits)
  qed
  with 1 show ?thesis by simp
qed

text \<open>C5, instances: a text of two sentences and a text without terminators.\<close>

theorem createChunks_short_text_single_chunk_witness:
  "map content (createChunks exEnv exCfg ''Hi there. Bye.'' exFile exDefaults) = [''Hi there Bye'']
   \<and> map content (createChunks exEnv exCfg ''  Hi there '' exFile exDefaults) = [''Hi there'']"
proof -
  have a: "int (length ''Hi there. Bye.'') \<le> orDefault (opt_chunkSize exDefaults) (CHUNK_SIZE exCfg)"
    by (simp add: orDefault_def exDefaults_def exCfg_def)
  have b: "splitIntoSentences ''Hi there. Bye.'' = [''Hi there'', ''Bye'']"
    by (simp add: chunker_eval)
  have c: "int (length ''  Hi there '') \<le> orDefault (opt_chunkSize exDefaults) (CHUNK_SIZE exCfg)"
    by (simp add: orDefault_def exDefaults_def exCfg_def)
  have d: "splitIntoSentences ''  Hi there '' = [''Hi there'']"
    by (simp add: chunker_eval)
  have e: "\<forall>c\<in>set ''  Hi there ''. \<not> isTerminator c" by (simp add: isTerminator_def)
  have f: "trim ''  Hi there '' = ''Hi there''" by (simp add: trim_def isWhitespace_def)
  show ?thesis
    using createChunks_short_text_single_chunk [OF a, of exEnv exFile]
      createChunks_short_text_single_chunk [OF c, of exEnv exFile] b d e f
    by simp
qed

text \<open>C5 as stated fails: the terminators of the text are not in the chunk.\<close>

theorem createChunks_short_text_counterexample:
  "int (length ''Hi there. Bye.'') \<le> orDefault (opt_chunkSize exDefaults) (CHUNK_SIZE exCfg)
   \<and> splitIntoSentences ''Hi there. Bye.'' \<noteq> []
   \<and> map content (createChunks exEnv exCfg ''Hi there. Bye.'' exFile exDefaults) = [''Hi there Bye'']
   \<and> trim ''Hi there. Bye.'' = ''Hi there. Bye.''
   \<and> map content (createChunks exEnv exCfg ''Hi there. Bye.'' exFile exDefaults)
       \<noteq> [trim ''Hi there. Bye.'']"
  by (simp add: chunker_eval exDefaults_def)

subsection \<open>The overlap between consecutive chunks\<close>

lemma getOverlapText_pos:
  "0 < ov \<Longrightarrow> getOverlapText s ov = drop (length s - nat ov) s"
  by (auto simp: getOverlapText_def)

lemma prefix_dropWhile_append: "prefix (dropWhile P a) (dropWhile P (a @ z))"
proof (induction a)
  case Nil
  show ?case by simp
next
  case (Cons x a)
  show ?case
  proof (cases "P x")
    case True
    with Cons show ?thesis by simp
  next
    case False
    then show ?thesis by simp
  qed
qed

lemma trimStart_idem: "trimStart (trimStart s) = trimStart s"
  by (simp add: trimStart_def dropWhile_idem)

lemma overlap_of_trimmed:
  assumes "0 < ov"
  shows "trimStart (getOverlapText (trimStart cur) ov) = trimStart (getOverlapText cur ov)"
proof -
  let ?w = "takeWhile isWhitespace cur" and ?c = "dropWhile isWhitespace cur"
  have cur: "cur = ?w @ ?c" by simp
  show ?thesis
  proof (cases "nat ov \<le> length ?c")
    case True
    have "drop (length cur - nat ov) cur = drop (length (?w @ ?c) - nat ov) (?w @ ?c)" by simp
    also have "\<dots> = drop (length ?c - nat ov) ?c" using True by (simp del: takeWhile_dropWhile_id)
    finally show ?thesis using assms by (simp add: getOverlapText_pos trimStart_def)
  next
    case False
    then have 1: "getOverlapText ?c ov = ?c"
      using assms by (simp add: getOverlapText_pos)
    have "drop (length cur - nat ov) cur = drop (length (?w @ ?c) - nat ov) (?w @ ?c)" by simp
    also have "\<dots> = drop (length ?w + length ?c - nat ov) ?w @ ?c"
      using False by (simp del: takeWhile_dropWhile_id)
    finally have 2: "getOverlapText cur ov = drop (length ?w + length ?c - nat ov) ?w @ ?c"
      using assms by (simp add: getOverlapText_pos)
    have "\<And>x. x \<in> set (drop (length ?w + length ?c - nat ov) ?w) \<Longrightarrow> isWhitespace x"
      by (meson in_set_dropD set_takeWhileD)
    then have 3: "dropWhile isWhitespace (drop (length ?w + length ?c - nat ov) ?w @ ?c)
                 = dropWhile isWhitespace ?c"
      by (rule dropWhile_append2)
    have "trimStart (getOverlapText (trimStart cur) ov) = dropWhile isWhitespace ?c"
      by (simp only: trimStart_def 1)
    also have "\<dots> = trimStart (getOverlapText cur ov)"
      by (simp only: 2 3 trimStart_def)
    finally show ?thesis .
  qed
qed

lemma chained_snoc:
  assumes "chained ov chunks"
    and "chunks \<noteq> [] \<longrightarrow> overlaps ov (content (last chunks)) (content c)"
  shows "chained ov (chunks @ [c])"
  unfolding chained_def
proof (intro allI impI)
  fix i assume i: "i + 1 < length (chunks @ [c])"
  show "overlaps ov (content ((chunks @ [c]) ! i)) (content ((chunks @ [c]) ! (i + 1)))"
  proof (cases "i + 1 < length chunks")
    case True
    then show ?thesis using assms(1) by (simp add: chained_def nth_append)
  next
    case False
    with i have e: "i + 1 = length chunks" by simp
    then have "chunks \<noteq> []" by auto
    moreover have "chunks ! i = last chunks" using e by (metis add_diff_cancel_right' calculation last_conv_nth)
    ultimately show ?thesis using assms(2) e by (simp add: nth_append)
  qed
qed

lemma chunkLoop_chained:
  assumes "0 < ov" "\<forall>s\<in>set ss. tight s"
    and "chained ov chunks"
    and "cur = [] \<or> \<not> isWhitespace (last cur)"
    and "chunks \<noteq> [] \<longrightarrow> cur \<noteq> [] \<and> overlaps ov (content (last chunks)) (trimStart cur)"
    and "chunkLoop env fileInfo cs ov ss chunks cur idx = (chunks', cur', idx')"
  shows "chained ov chunks' \<and> (cur' = [] \<or> \<not> isWhitespace (last cur'))
         \<and> (chunks' \<noteq> [] \<longrightarrow> cur' \<noteq> [] \<and> overlaps ov (content (last chunks')) (trimStart cur'))"
  using assms(2-)
proof (induction ss arbitrary: chunks cur idx)
  case Nil
  then show ?case by auto
next
  case (Cons s ss)
  from Cons.prems(1) have ts: "tight s" and tss: "\<forall>s\<in>set ss. tight s" by simp_all
  then have s: "s \<noteq> []" "\<not> isWhitespace (last s)" by (simp_all add: tight_def)
  show ?case
  proof (cases "s \<noteq> [] \<and> int (length cur + length s) > cs \<and> length cur > 0")
    case True
    let ?new = "createChunkObject env (length chunks) (trim cur) fileInfo idx (length chunks + 1)"
    let ?cur = "getOverlapText cur ov @ s"
    from True have c: "cur \<noteq> []" by simp
    with Cons.prems(3) have lc: "\<not> isWhitespace (last cur)" by simp
    have cn: "content ?new = trimStart cur"
      using trim_ends_tight [OF c lc] by (simp add: createChunkObject_def)
    have 1: "chained ov (chunks @ [?new])"
      using Cons.prems(2,4) cn by (intro chained_snoc) simp_all
    have 2: "?cur = [] \<or> \<not> isWhitespace (last ?cur)" using s by simp
    have "prefix (trimStart (getOverlapText cur ov)) (trimStart ?cur)"
      unfolding trimStart_def by (rule prefix_dropWhile_append)
    then have "prefix (trimStart (getOverlapText (trimStart cur) ov)) (trimStart ?cur)"
      by (simp only: overlap_of_trimmed [OF assms(1)])
    then have 3: "chunks @ [?new] \<noteq> [] \<longrightarrow>
        ?cur \<noteq> [] \<and> overlaps ov (content (last (chunks @ [?new]))) (trimStart ?cur)"
      using s cn by (simp add: overlaps_def)
    have "chunkLoop env fileInfo cs ov ss (chunks @ [?new]) ?cur (idx + 1) = (chunks', cur', idx')"
      using Cons.prems(5) True by simp
    from Cons.IH [OF tss 1 2 3 this] show ?thesis .
  next
    case False
    let ?cur = "cur @ (if cur \<noteq> [] then '' '' else []) @ s"
    have 2: "?cur = [] \<or> \<not> isWhitespace (last ?cur)" using s by simp
    have "prefix (trimStart cur) (trimStart ?cur)"
      unfolding trimStart_def by (rule prefix_dropWhile_append)
    then have 3: "chunks \<noteq> [] \<longrightarrow> ?cur \<noteq> [] \<and> overlaps ov (content (last chunks)) (trimStart ?cur)"
      using Cons.prems(4) s by (auto simp: overlaps_def)
    have "chunkLoop env fileInfo cs ov ss chunks ?cur idx = (chunks', cur', idx')"
      using Cons.prems(5) False by auto
    from Cons.IH [OF tss Cons.prems(2) 2 3 this] show ?thesis .
  qed
qed

lemma createChunks_chained:
  assumes "0 < orDefault (opt_chunkOverlap options) (CHUNK_OVERLAP cfg)"
  shows "chained (orDefault (opt_chunkOverlap options) (CHUNK_OVERLAP cfg))
           (createChunks env cfg doc fileInfo options)"
proof -
  let ?cs = "orDefault (opt_chunkSize options) (CHUNK_SIZE cfg)"
  let ?ov = "orDefault (opt_chunkOverlap options) (CHUNK_OVERLAP cfg)"
  obtain chunks cur idx where
    l: "chunkLoop env fileInfo ?cs ?ov (splitIntoSentences doc) [] [] 0 = (chunks, cur, idx)"
    by (metis prod_cases3)
  have t: "\<forall>s\<in>set (splitIntoSentences doc). tight s" using sentences_tight by blast
  have "chained ?ov []" by (simp add: chained_def)
  from chunkLoop_chained [OF assms t this _ _ l]
  have ch: "chained ?ov chunks" and lc: "cur = [] \<or> \<not> isWhitespace (last cur)"
    and ov: "chunks \<noteq> [] \<longrightarrow> cur \<noteq> [] \<and> overlaps ?ov (content (last chunks)) (trimStart cur)"
    by simp_all
  show ?thesis
  proof (cases "length (trim cur) > 0")
    case True
    let ?new = "createChunkObject env (length chunks) (trim cur) fileInfo idx (length chunks + 1)"
    from True have c: "cur \<noteq> []" by (auto simp: trim_def)
    with lc have "trim cur = trimStart cur" by (simp add: trim_ends_tight)
    then have "chunks \<noteq> [] \<longrightarrow> overlaps ?ov (content (last chunks)) (content ?new)"
      using ov by (simp add: createChunkObject_def)
    from chained_snoc [OF ch this] show ?thesis using True l by (simp add: createChunks_def)
  next
    case False
    then show ?thesis using ch l by (simp add: createChunks_def)
  qed
qed

text \<open>
  C4 (as the code has it). With a positive overlap \<open>O\<close> in force, for every two
  consecutive chunks that \<^verbatim>\<open>createChunks\<close> returns, the content of the later chunk
  starts with the last \<open>O\<close> characters of the earlier chunk's content (all of it when it
  has at most \<open>O\<close> characters) after the leading white space of that tail is removed.
\<close>

theorem createChunks_overlap_prefix:
  assumes "0 < orDefault (opt_chunkOverlap options) (CHUNK_OVERLAP cfg)"
    and "i + 1 < length (createChunks env cfg doc fileInfo options)"
  shows "prefix
           (trimStart (getOverlapText (content (createChunks env cfg doc fileInfo options ! i))
                         (orDefault (opt_chunkOverlap options) (CHUNK_OVERLAP cfg))))
           (content (createChunks env cfg doc fileInfo options ! (i + 1)))"
  using createChunks_chained [OF assms(1), of env doc fileInfo] assms(2)
  by (simp add: chained_def overlaps_def)

text \<open>C4, instance: the two chunks of \<open>aaa. bbb. ccc\<close> with chunk size 8 and overlap 4.\<close>

theorem createChunks_overlap_prefix_witness:
  "0 < orDefault (opt_chunkOverlap exOptions) (CHUNK_OVERLAP exCfg)
   \<and> 0 + 1 < length (createChunks exEnv exCfg ''aaa. bbb. ccc'' exFile exOptions)
   \<and> prefix (trimStart (getOverlapText ''aaa bbb'' 4)) ''bbbccc''"
proof -
  let ?cs = "createChunks exEnv exCfg ''aaa. bbb. ccc'' exFile exOptions"
  have a: "0 < orDefault (opt_chunkOverlap exOptions) (CHUNK_OVERLAP exCfg)"
    and o: "orDefault (opt_chunkOverlap exOptions) (CHUNK_OVERLAP exCfg) = 4"
    by (simp_all add: orDefault_def exOptions_def)
  have len: "length ?cs = 2" using arg_cong [OF exChunks_contents, of length] by simp
  then have b: "0 + 1 < length ?cs" by simp
  have c0: "content (?cs ! 0) = ''aaa bbb''" and c1: "content (?cs ! (0 + 1)) = ''bbbccc''"
    using arg_cong [OF exChunks_contents, of "\<lambda>xs. xs ! 0"]
      arg_cong [OF exChunks_contents, of "\<lambda>xs. xs ! 1"] len by simp_all
  from createChunks_overlap_prefix [OF a b] show ?thesis using a b c0 c1 o by simp
qed

text \<open>C4 as stated fails: the overlap tail \<open>'' bbb''\<close> of the first chunk starts with a
  space, which the trimming of the second chunk's content removes.\<close>

theorem createChunks_overlap_counterexample:
  "0 < orDefault (opt_chunkOverlap exOptions) (CHUNK_OVERLAP exCfg)
   \<and> map content (createChunks exEnv exCfg ''aaa. bbb. ccc'' exFile exOptions)
       = [''aaa bbb'', ''bbbccc'']
   \<and> getOverlapText ''aaa bbb'' (orDefault (opt_chunkOverlap exOptions) (CHUNK_OVERLAP exCfg))
       = '' bbb''
   \<and> \<not> prefix '' bbb'' ''bbbccc''"
  by (simp add: chunker_eval)

end
